theory Spec2Isabelle
  imports Complex_Main "HOL-Library.Word" "HOL-Library.Multiset" "HOL-Library.Extended_Nat"
    "HOL-Library.Product_Lexorder" "HOL-Library.Signed_Division"
begin

section \<open>The drivers: what a rank does, as a trace of calls\<close>

text \<open>
  The two drivers under \<^verbatim>\<open>src/app\<close> sequence calls on a \<^verbatim>\<open>body_system\<close> object and
  write to the log. A driver is modelled by the calls one rank makes, in order. The
  kernels are the functions of \<^verbatim>\<open>physics::\<close> the drivers pass to \<^verbatim>\<open>apply_all\<close> and
  \<^verbatim>\<open>apply_in_smoothinglength\<close>; only their names matter here.
\<close>

datatype kernel =
    compute_density
  | compute_pressure
  | compute_soundspeed
  | compute_hydro_acceleration
  | compute_internalenergy
  | leapfrog_integration_1
  | leapfrog_integration_2

datatype severity = Trace | Warn | Error

text \<open>
  A C++ \<^verbatim>\<open>int\<close> is a 32-bit word read in two's complement (\<open>sint\<close>); \<^verbatim>\<open>++iter\<close> is
  \<open>iter + 1\<close> on words, which wraps around. The C++ standard leaves the increment of
  \<^verbatim>\<open>INT_MAX\<close> undefined; the wrap-around is what the two's complement machine does.
\<close>

type_synonym cint = "32 word"

datatype event =
    MPI_Barrier
  | Cout string
  | Cout_iteration cint
  | Clog severity string
  | Read_bodies string cint
  | Write_bodies string cint
  | Update_iteration
  | Update_neighbors
  | Apply_in_smoothinglength kernel
  | Apply_all kernel
  | Execute_mpi_task string

subsection \<open>The Sedov driver (\<^verbatim>\<open>src/app/sedov/main_driver.cc\<close>)\<close>

definition totaliters :: cint where
  "totaliters = 200"

definition iteroutput :: cint where
  "iteroutput = 1"

text \<open>\<^verbatim>\<open>if(rank==0) std::cout << ...\<close>: only rank 0 prints.\<close>

definition cout0 :: "int \<Rightarrow> string \<Rightarrow> event list" where
  "cout0 rank s = (if rank = 0 then [Cout s] else [])"

text \<open>
  One pass through the body of the do-while loop, lines 86 to 154, \<^verbatim>\<open>++iter\<close> apart.
  \<open>OUTPUT\<close> says whether the macro of that name is defined at compile time. The
  operators \<^verbatim>\<open>%\<close> and \<^verbatim>\<open>/\<close> of C++ truncate towards zero: \<open>smod\<close> and \<open>sdiv\<close> on
  the signed values. The calls on \<^verbatim>\<open>bs\<close> are taken to return: \<^verbatim>\<open>body_system\<close> and the
  kernels are not under \<^verbatim>\<open>src\<close>.
\<close>

definition sedov_iteration :: "bool \<Rightarrow> int \<Rightarrow> cint \<Rightarrow> event list" where
  "sedov_iteration OUTPUT rank iter =
     [MPI_Barrier] @
     (if rank = 0 then [Cout_iteration iter] else []) @
     [MPI_Barrier] @
     [Update_iteration] @
     cout0 rank ''Density'' @
     [Apply_in_smoothinglength compute_density] @
     cout0 rank ''.done'' @
     cout0 rank ''Pressure'' @
     [Apply_all compute_pressure] @
     cout0 rank ''.done'' @
     cout0 rank ''Soundspeed'' @
     [Apply_all compute_soundspeed] @
     cout0 rank ''.done'' @
     [Update_neighbors] @
     cout0 rank ''Hydro acceleration'' @
     [Apply_in_smoothinglength compute_hydro_acceleration] @
     cout0 rank ''.done'' @
     cout0 rank ''Internalenergy'' @
     [Apply_in_smoothinglength compute_internalenergy] @
     cout0 rank ''.done'' @
     cout0 rank ''MoveParticles'' @
     [Apply_all leapfrog_integration_1] @
     cout0 rank ''.done'' @
     cout0 rank ''MoveParticles'' @
     [Apply_all leapfrog_integration_2] @
     cout0 rank ''.done'' @
     (if OUTPUT \<and> sint iter smod sint iteroutput = 0
      then [Write_bodies ''output_sedov.h5part''
              (word_of_int (sint iter sdiv sint iteroutput))]
      else [])"

text \<open>
  The do-while loop: the body runs, then \<^verbatim>\<open>++iter\<close>, then the test
  \<^verbatim>\<open>iter<totaliters\<close> (a signed comparison). The result has one entry for each pass
  through the body, so its length is the number of passes.
\<close>

function sedov_loop :: "bool \<Rightarrow> int \<Rightarrow> cint \<Rightarrow> event list list" where
  "sedov_loop OUTPUT rank iter =
     (let iter' = iter + 1 in
      if iter' <s totaliters
      then sedov_iteration OUTPUT rank iter # sedov_loop OUTPUT rank iter'
      else [sedov_iteration OUTPUT rank iter])"
  by pat_completeness auto

termination
proof (relation "measure (\<lambda>(OUTPUT, rank, iter). unat (199 - iter))")
  show "wf (measure (\<lambda>(OUTPUT :: bool, rank :: int, iter :: cint). unat (199 - iter)))"
    by simp
next
  fix OUTPUT :: bool and rank :: int and iter x :: cint
  assume x: "x = iter + 1" and lt: "x <s totaliters"
  have ne: "199 - iter \<noteq> 0"
  proof
    assume "199 - iter = 0"
    then have "iter = 199" by simp
    with x lt show False by (simp add: word_sless_alt totaliters_def)
  qed
  have e: "199 - (iter + 1) = (199 - iter) - 1" by simp
  show "((OUTPUT, rank, x), (OUTPUT, rank, iter))
          \<in> measure (\<lambda>(OUTPUT, rank, iter). unat (199 - iter))"
    by (simp only: x e in_measure prod.case) (rule measure_unat [OF ne])
qed

declare sedov_loop.simps [simp del]

record run =
  prologue :: "event list"
  iterations :: "event list list"

text \<open>
  \<^verbatim>\<open>mpi_init_task(int startiteration)\<close>: the bodies are read, written once when
  \<open>OUTPUT\<close> is defined, \<^verbatim>\<open>iter\<close> is incremented (line 84) and the loop starts.
\<close>

definition sedov_mpi_init_task :: "bool \<Rightarrow> int \<Rightarrow> cint \<Rightarrow> run" where
  "sedov_mpi_init_task OUTPUT rank startiteration =
     (let iter = startiteration in
      \<lparr>prologue = [Read_bodies ''hdf5_sedov.h5part'' startiteration] @
               (if OUTPUT then [Write_bodies ''output_sedov.h5part'' iter] else []),
       iterations = sedov_loop OUTPUT rank (iter + 1)\<rparr>)"

text \<open>
  \<^verbatim>\<open>specialization_driver\<close>: the start iteration is 0 unless there is exactly one
  argument, which \<^verbatim>\<open>atoi\<close> (a parameter here) converts.
\<close>

definition sedov_specialization_driver ::
  "(string \<Rightarrow> cint) \<Rightarrow> bool \<Rightarrow> int \<Rightarrow> int \<Rightarrow> string list \<Rightarrow> run" where
  "sedov_specialization_driver atoi OUTPUT rank argc argv =
     (let startiteration = (if argc = 2 then atoi (argv ! 1) else 0) in
      sedov_mpi_init_task OUTPUT rank startiteration)"

subsection \<open>The Noh driver's entry point (\<^verbatim>\<open>src/app/noh/main_driver.cc\<close>)\<close>

text \<open>
  \<^verbatim>\<open>clog_one(severity) << message\<close> is a macro of the logging library, which is not
  under \<^verbatim>\<open>src\<close>. The event \<open>Clog severity message\<close> records that a rank makes the call;
  on which ranks the library writes the message is not modelled.
\<close>

definition usage :: "event list" where
  "usage = [Clog Warn ''Usage: ./noh <parameter-file.par>'']"

text \<open>
  \<^verbatim>\<open>specialization_tlt_init\<close>, lines 194 to 207, as one rank runs it. With
  \<^verbatim>\<open>argc != 2\<close> the function logs the error, calls \<^verbatim>\<open>usage\<close> and returns before
  \<^verbatim>\<open>flecsi_execute_mpi_task\<close>.
\<close>

definition specialization_tlt_init :: "int \<Rightarrow> string list \<Rightarrow> event list" where
  "specialization_tlt_init argc argv =
     [Clog Trace ''In user specialization_driver''] @
     (if argc \<noteq> 2
      then [Clog Error ''ERROR: parameter file not specified!''] @ usage
      else [Execute_mpi_task (argv ! 1)])"

definition driver :: "int \<Rightarrow> string list \<Rightarrow> event list" where
  "driver argc argv = [Clog Trace ''In user driver'']"

section \<open>Distributed Sort, from the spec\<close>

text \<open>
  \<^verbatim>\<open>src/include/mpi_partition.h\<close> declares
  \<^verbatim>\<open>void mpi_sort(std::vector<std::pair<entity_key_t,body>>&, std::vector<int>)\<close>;
  the body of the function, \<^verbatim>\<open>tree.h\<close> with the types \<^verbatim>\<open>entity_key_t\<close> and \<^verbatim>\<open>body\<close>,
  and the boundary table are not under \<^verbatim>\<open>src\<close>. The definitions of this section follow
  section 4.2 of the spec, step by step. The ranks are the positions of a list: entry
  \<open>r\<close> of \<open>rbodies\<close> is the vector of pairs rank \<open>r\<close> passes to \<^verbatim>\<open>mpi_sort\<close>, and entry \<open>r\<close>
  of the result is that vector when the call returns. The spec's algorithm refreshes
  the boundary table from the sample in every call and gives the second argument of the
  declaration no part; the model has none.
\<close>

text \<open>
  Modelled from the spec: the type \<^verbatim>\<open>entity_key_t\<close> of \<^verbatim>\<open>tree.h\<close>, which is missing. The
  spec's spatial key is an order-preserving scalar; here a natural number.
\<close>

type_synonym entity_key_t = nat

text \<open>
  Modelled from the spec: the type \<^verbatim>\<open>body\<close> of \<^verbatim>\<open>tree.h\<close>, which is missing. Of the
  fields section 3 of the spec lists, the identity, the position, the mass and the
  smoothing length are kept.
\<close>

record body =
  ident :: nat
  position :: "real list"
  mass :: real
  smoothinglength :: real

type_synonym pair = "entity_key_t \<times> body"

text \<open>
  Modelled from the spec: the comparison of pairs, which is missing. Section 4.1 asks
  for a total comparison, ties between equal keys broken by the particle's identifier:
  the order is the lexicographic one on (key, identifier).
\<close>

definition order_key :: "pair \<Rightarrow> entity_key_t \<times> nat" where
  "order_key p = (fst p, ident (snd p))"

text \<open>
  Modelled from the spec: step 1 and step 5 of \<^verbatim>\<open>mpi_sort\<close>, whose body is missing.
  Each rank sorts its pairs.
\<close>

definition local_sort :: "pair list \<Rightarrow> pair list" where
  "local_sort ps = sort_key order_key ps"

text \<open>
  Modelled from the spec: the sample of step 2 of \<^verbatim>\<open>mpi_sort\<close>, whose body is missing. A
  rank contributes at most \<open>nsample\<close> keys of its sorted pairs, evenly spaced; a rank with
  no pairs contributes the empty sample.
\<close>

definition sample_keys :: "nat \<Rightarrow> pair list \<Rightarrow> entity_key_t list" where
  "sample_keys nsample ps =
     (let n = length ps; m = min nsample n
      in map (\<lambda>i. fst (ps ! (i * n div m))) [0..<m])"

text \<open>
  Modelled from the spec: the splitters of step 2 of \<^verbatim>\<open>mpi_sort\<close>, whose body is missing.
  Splitter \<open>i\<close> of \<open>R\<close> ranks is the sorted sample's entry at \<open>i / R\<close> of its length. With
  an empty sample there is no key to take, and the splitter is \<open>\<infinity>\<close>.
\<close>

definition splitter :: "nat \<Rightarrow> entity_key_t list \<Rightarrow> nat \<Rightarrow> enat" where
  "splitter R samples i =
     (if samples = [] then \<infinity> else enat (samples ! (i * length samples div R)))"

text \<open>
  Modelled from the spec: the partition boundary table, which is missing. It holds the
  lower bound of each rank's key range: 0 for rank 0, splitter \<open>r\<close> for rank \<open>r\<close>, and
  \<open>\<infinity>\<close> past the last rank, so that it has \<open>R + 1\<close> entries.
\<close>

definition boundary_table :: "nat \<Rightarrow> entity_key_t list \<Rightarrow> enat list" where
  "boundary_table R samples = 0 # map (splitter R samples) [1..<R] @ [\<infinity>]"

text \<open>
  Modelled from the spec: ownership, which is missing. Rank \<open>r\<close> owns every key in
  \<open>[boundary[r], boundary[r+1])\<close>.
\<close>

definition owns :: "enat list \<Rightarrow> nat \<Rightarrow> entity_key_t \<Rightarrow> bool" where
  "owns boundary r k = (boundary ! r \<le> enat k \<and> enat k < boundary ! (r + 1))"

text \<open>
  Modelled from the spec: step 3 of \<^verbatim>\<open>mpi_sort\<close>, whose body is missing. The bucket a
  rank fills for rank \<open>r\<close> holds its pairs whose key rank \<open>r\<close> owns.
\<close>

definition bucket :: "enat list \<Rightarrow> nat \<Rightarrow> pair list \<Rightarrow> pair list" where
  "bucket boundary r ps = filter (\<lambda>p. owns boundary r (fst p)) ps"

text \<open>
  Modelled from the spec: step 4 of \<^verbatim>\<open>mpi_sort\<close>, whose body is missing. In the
  all-to-all exchange rank \<open>r\<close> receives bucket \<open>r\<close> of every rank, in the order of the
  sending ranks.
\<close>

definition all_to_all :: "'a list list list \<Rightarrow> 'a list list" where
  "all_to_all buckets =
     map (\<lambda>r. concat (map (\<lambda>from_rank. from_rank ! r) buckets)) [0..<length buckets]"

text \<open>
  Modelled from the spec: the boundary table \<^verbatim>\<open>mpi_sort\<close>, whose body is missing, sets in
  step 2: the samples of all ranks are gathered and sorted, and the splitters are taken
  from them.
\<close>

definition mpi_sort_boundary :: "nat \<Rightarrow> pair list list \<Rightarrow> enat list" where
  "mpi_sort_boundary nsample rbodies =
     (let R = length rbodies;
          sorted_local = map local_sort rbodies;
          samples = sort (concat (map (sample_keys nsample) sorted_local))
      in boundary_table R samples)"

text \<open>
  Modelled from the spec: \<^verbatim>\<open>mpi_sort\<close>, whose body is missing; the five steps of section
  4.2. \<open>nsample\<close> is the configurable size of a rank's sample.
\<close>

definition mpi_sort :: "nat \<Rightarrow> pair list list \<Rightarrow> pair list list" where
  "mpi_sort nsample rbodies =
     (let R = length rbodies;
          sorted_local = map local_sort rbodies;
          boundary = mpi_sort_boundary nsample rbodies;
          buckets = map (\<lambda>ps. map (\<lambda>r. bucket boundary r ps) [0..<R]) sorted_local;
          received = all_to_all buckets
      in map local_sort received)"

text \<open>A particle with key \<open>k\<close> and identifier \<open>i\<close>, for the examples.\<close>

definition particle :: "entity_key_t \<Rightarrow> nat \<Rightarrow> pair" where
  "particle k i = (k, \<lparr>ident = i, position = [real k], mass = 1, smoothinglength = 1\<rparr>)"

section \<open>Properties of the Sedov driver\<close>

lemma sint_incr:
  fixes iter :: cint
  assumes "sint iter < 2147483647"
  shows "sint (iter + 1) = sint iter + 1"
proof -
  have "- (2 ^ 31) \<le> sint iter" using sint_ge [of iter] by simp
  then have "signed_take_bit 31 (sint iter + 1) = sint iter + 1"
    using assms by (intro signed_take_bit_int_eq_self) simp_all
  then show ?thesis by (simp add: sint_word_add)
qed

lemma sedov_loop_length:
  assumes "sint iter < 2147483647"
  shows "length (sedov_loop OUTPUT rank iter) = nat (max 1 (200 - sint iter))"
  using assms
proof (induction OUTPUT rank iter rule: sedov_loop.induct)
  case (1 OUTPUT rank iter)
  have s: "sint (iter + 1) = sint iter + 1"
    using 1(2) by (rule sint_incr)
  show ?case
  proof (cases "iter + 1 <s totaliters")
    case True
    then have lt: "sint iter < 199" by (simp add: word_sless_alt s totaliters_def)
    then have "sint (iter + 1) < 2147483647" by (simp add: s)
    with 1(1) True
    have "length (sedov_loop OUTPUT rank (iter + 1)) = nat (max 1 (200 - sint (iter + 1)))"
      by simp
    then show ?thesis using True lt
      by (subst sedov_loop.simps) (simp add: s Let_def)
  next
    case False
    then have "199 \<le> sint iter" by (simp add: word_sless_alt s totaliters_def)
    then show ?thesis using False
      by (subst sedov_loop.simps) (simp add: Let_def)
  qed
qed

lemma sedov_loop_body:
  "it \<in> set (sedov_loop OUTPUT rank iter) \<Longrightarrow>
     Update_iteration \<in> set it \<and>
     Update_neighbors \<in> set it \<and>
     Apply_in_smoothinglength compute_density \<in> set it \<and>
     Apply_all compute_pressure \<in> set it \<and>
     Apply_all compute_soundspeed \<in> set it \<and>
     Apply_in_smoothinglength compute_hydro_acceleration \<in> set it \<and>
     Apply_in_smoothinglength compute_internalenergy \<in> set it \<and>
     Apply_all leapfrog_integration_1 \<in> set it \<and>
     Apply_all leapfrog_integration_2 \<in> set it"
proof (induction OUTPUT rank iter rule: sedov_loop.induct)
  case (1 OUTPUT rank iter)
  from "1.prems" have "it = sedov_iteration OUTPUT rank iter \<or>
      (iter + 1 <s totaliters \<and> it \<in> set (sedov_loop OUTPUT rank (iter + 1)))"
    by (subst (asm) sedov_loop.simps) (auto simp: Let_def split: if_splits)
  then show ?case
  proof
    assume "it = sedov_iteration OUTPUT rank iter"
    then show ?thesis by (simp add: sedov_iteration_def)
  next
    assume "iter + 1 <s totaliters \<and> it \<in> set (sedov_loop OUTPUT rank (iter + 1))"
    then show ?thesis using "1.IH" by simp
  qed
qed

lemma sedov_default_start:
  "argc \<noteq> 2 \<Longrightarrow>
     length (iterations (sedov_specialization_driver atoi OUTPUT rank argc argv)) = 199"
  using sedov_loop_length [of "0 + 1" OUTPUT rank]
  by (simp add: sedov_specialization_driver_def sedov_mpi_init_task_def)

text \<open>
  C10, as the claim states it, fails. With \<^verbatim>\<open>startiteration = INT_MAX\<close> the increment
  of line 84 wraps to \<^verbatim>\<open>INT_MIN\<close>, and the body runs \<open>2\<^sup>3\<^sup>1 + 200\<close> times, not once as
  \<open>max(1, 199 - startiteration)\<close> says.
\<close>

theorem C10_counterexample:
  "length (iterations (sedov_mpi_init_task False 0 2147483647)) = 2147483848
   \<and> nat (max 1 (199 - sint (2147483647 :: cint))) = 1"
proof -
  have "length (sedov_loop False 0 (2147483647 + 1)) = 2147483848"
    using sedov_loop_length [of "2147483647 + 1" False 0] by simp
  then show ?thesis by (simp add: sedov_mpi_init_task_def)
qed

text \<open>
  The same happens one below: with \<^verbatim>\<open>startiteration = INT_MAX - 1\<close> the loop starts at
  \<^verbatim>\<open>INT_MAX\<close>, and the increment at the end of the first pass wraps.
\<close>

lemma sedov_loop_wraps:
  "length (iterations (sedov_mpi_init_task OUTPUT rank 2147483646)) = 2147483849"
proof -
  have "length (sedov_loop OUTPUT rank (2147483647 + 1)) = 2147483848"
    using sedov_loop_length [of "2147483647 + 1" OUTPUT rank] by simp
  then have "length (sedov_loop OUTPUT rank 2147483647) = 2147483849"
    by (subst sedov_loop.simps) (simp add: Let_def word_sless_alt totaliters_def)
  then show ?thesis by (simp add: sedov_mpi_init_task_def)
qed

text \<open>
  C10, amended. The loop of the Sedov \<^verbatim>\<open>mpi_init_task\<close> terminates for every
  \<^verbatim>\<open>startiteration\<close> (\<open>sedov_loop\<close> is a total function). For every
  \<^verbatim>\<open>startiteration\<close> up to \<^verbatim>\<open>INT_MAX - 2\<close>, where no increment of \<^verbatim>\<open>iter\<close> overflows,
  the body runs exactly \<open>max(1, 199 - startiteration)\<close> times, and each pass calls
  \<^verbatim>\<open>update_iteration\<close>, \<^verbatim>\<open>update_neighbors\<close> and every physics kernel. In particular
  the body runs once when \<^verbatim>\<open>startiteration >= 199\<close>.
\<close>

theorem C10_sedov_loop_count:
  assumes "sint startiteration < 2147483646"
  shows "length (iterations (sedov_mpi_init_task OUTPUT rank startiteration))
           = nat (max 1 (199 - sint startiteration))
         \<and> (199 \<le> sint startiteration \<longrightarrow>
              length (iterations (sedov_mpi_init_task OUTPUT rank startiteration)) = 1)
         \<and> (\<forall>it \<in> set (iterations (sedov_mpi_init_task OUTPUT rank startiteration)).
              Update_iteration \<in> set it \<and>
              Update_neighbors \<in> set it \<and>
              Apply_in_smoothinglength compute_density \<in> set it \<and>
              Apply_all compute_pressure \<in> set it \<and>
              Apply_all compute_soundspeed \<in> set it \<and>
              Apply_in_smoothinglength compute_hydro_acceleration \<in> set it \<and>
              Apply_in_smoothinglength compute_internalenergy \<in> set it \<and>
              Apply_all leapfrog_integration_1 \<in> set it \<and>
              Apply_all leapfrog_integration_2 \<in> set it)"
proof -
  have s: "sint (startiteration + 1) = sint startiteration + 1"
    using assms by (intro sint_incr) simp
  have len: "length (iterations (sedov_mpi_init_task OUTPUT rank startiteration))
           = nat (max 1 (199 - sint startiteration))"
    using sedov_loop_length [of "startiteration + 1" OUTPUT rank] assms
    by (simp add: sedov_mpi_init_task_def s)
  have body: "\<forall>it \<in> set (iterations (sedov_mpi_init_task OUTPUT rank startiteration)).
              Update_iteration \<in> set it \<and>
              Update_neighbors \<in> set it \<and>
              Apply_in_smoothinglength compute_density \<in> set it \<and>
              Apply_all compute_pressure \<in> set it \<and>
              Apply_all compute_soundspeed \<in> set it \<and>
              Apply_in_smoothinglength compute_hydro_acceleration \<in> set it \<and>
              Apply_in_smoothinglength compute_internalenergy \<in> set it \<and>
              Apply_all leapfrog_integration_1 \<in> set it \<and>
              Apply_all leapfrog_integration_2 \<in> set it"
    using sedov_loop_body [of _ OUTPUT rank "startiteration + 1"]
    by (simp add: sedov_mpi_init_task_def)
  from len body show ?thesis by simp
qed

theorem C10_sedov_loop_count_witness:
  "sint (500 :: cint) < 2147483646
   \<and> length (iterations (sedov_mpi_init_task False 0 500)) = 1
   \<and> length (iterations (sedov_mpi_init_task False 0 197)) = 2
   \<and> Update_iteration \<in> set (hd (iterations (sedov_mpi_init_task False 0 500)))"
proof -
  have a: "sint (500 :: cint) < 2147483646" by simp
  have b: "sint (197 :: cint) < 2147483646" by simp
  have c: "iterations (sedov_mpi_init_task False 0 500) \<noteq> []"
    using C10_sedov_loop_count [OF a, of False 0] by auto
  then have "hd (iterations (sedov_mpi_init_task False 0 500))
      \<in> set (iterations (sedov_mpi_init_task False 0 500))"
    by simp
  then have "Update_iteration \<in> set (hd (iterations (sedov_mpi_init_task False 0 500)))"
    using C10_sedov_loop_count [OF a, of False 0] by blast
  then show ?thesis
    using C10_sedov_loop_count [OF a, of False 0] C10_sedov_loop_count [OF b, of False 0]
    by simp
qed

section \<open>Properties of the Noh driver's entry point\<close>

text \<open>
  Without exactly one argument a rank makes the error call once, then the usage call,
  and never starts \<^verbatim>\<open>mpi_init_task\<close>. With one argument it makes no error call and
  starts the task on \<^verbatim>\<open>argv[1]\<close>. Whether the named file exists or is well formed is
  not looked at here: \<^verbatim>\<open>mpi_read_params\<close> and \<^verbatim>\<open>read_bodies\<close> do that.
\<close>

lemma noh_missing_parameter_file:
  "argc \<noteq> 2 \<Longrightarrow>
     specialization_tlt_init argc argv =
       [Clog Trace ''In user specialization_driver'',
        Clog Error ''ERROR: parameter file not specified!'',
        Clog Warn ''Usage: ./noh <parameter-file.par>'']"
  by (simp add: specialization_tlt_init_def usage_def)

lemma noh_parameter_file_given:
  "specialization_tlt_init 2 argv =
     [Clog Trace ''In user specialization_driver'', Execute_mpi_task (argv ! 1)]"
  by (simp add: specialization_tlt_init_def)

section \<open>Properties of Distributed Sort\<close>

lemma interval_exists:
  fixes t :: "enat list"
  assumes "t ! 0 \<le> k" and "k < t ! n"
  shows "\<exists>r<n. t ! r \<le> k \<and> k < t ! (r + 1)"
  using assms
proof (induction n)
  case 0
  then show ?case by simp
next
  case (Suc n)
  show ?case
  proof (cases "k < t ! n")
    case True
    with Suc obtain r where "r < n" "t ! r \<le> k" "k < t ! (r + 1)" by blast
    then show ?thesis by (intro exI [of _ r]) simp
  next
    case False
    with Suc.prems show ?thesis by (intro exI [of _ n]) simp
  qed
qed

lemma interval_unique:
  fixes t :: "enat list"
  assumes "sorted t" and "r + 1 < length t" and "r' + 1 < length t"
    and "t ! r \<le> k" "k < t ! (r + 1)" "t ! r' \<le> k" "k < t ! (r' + 1)"
  shows "r = r'"
proof (rule ccontr)
  assume "r \<noteq> r'"
  then consider "r + 1 \<le> r'" | "r' + 1 \<le> r" by linarith
  then show False
  proof cases
    case 1
    then have "t ! (r + 1) \<le> t ! r'" using assms(1,3) by (intro sorted_nth_mono) simp_all
    with assms(5,6) show False by simp
  next
    case 2
    then have "t ! (r' + 1) \<le> t ! r" using assms(1,2) by (intro sorted_nth_mono) simp_all
    with assms(4,7) show False by simp
  qed
qed

lemma splitter_mono:
  assumes "sorted samples" and "i \<le> j" and "j < R"
  shows "splitter R samples i \<le> splitter R samples j"
proof (cases "samples = []")
  case True
  then show ?thesis by (simp add: splitter_def)
next
  case False
  let ?n = "length samples"
  have "j * ?n div R < ?n"
    using assms(3) False by (simp add: less_mult_imp_div_less mult.commute)
  moreover have "i * ?n div R \<le> j * ?n div R"
    using assms(2) by (simp add: div_le_mono)
  ultimately have "samples ! (i * ?n div R) \<le> samples ! (j * ?n div R)"
    using assms(1) by (intro sorted_nth_mono)
  then show ?thesis using False by (simp add: splitter_def)
qed

lemma sorted_boundary_table:
  assumes "sorted samples"
  shows "sorted (boundary_table R samples)"
proof -
  have "sorted (map (splitter R samples) [1..<R])"
    unfolding sorted_map
    by (rule sorted_wrt_mono_rel [OF _ sorted_wrt_upt [of 1 R]])
       (auto intro: splitter_mono [OF assms])
  then show ?thesis by (simp add: boundary_table_def sorted_append)
qed

lemma length_boundary_table: "0 < R \<Longrightarrow> length (boundary_table R samples) = R + 1"
  by (simp add: boundary_table_def)

lemma boundary_table_first: "boundary_table R samples ! 0 = 0"
  by (simp add: boundary_table_def)

lemma boundary_table_last: "0 < R \<Longrightarrow> boundary_table R samples ! R = \<infinity>"
  by (simp add: boundary_table_def nth_Cons' nth_append)

lemma owner_exists_unique:
  assumes "sorted samples" and "0 < R"
  shows "\<exists>!r. r < R \<and> owns (boundary_table R samples) r k"
proof -
  let ?t = "boundary_table R samples"
  have "?t ! 0 \<le> enat k" by (simp add: boundary_table_first)
  moreover have "enat k < ?t ! R" using assms(2) by (simp add: boundary_table_last)
  ultimately obtain r where r: "r < R" "?t ! r \<le> enat k" "enat k < ?t ! (r + 1)"
    using interval_exists by blast
  show ?thesis
  proof (rule ex1I [of _ r])
    show "r < R \<and> owns ?t r k" using r by (simp add: owns_def)
  next
    fix r' assume "r' < R \<and> owns ?t r' k"
    then have r': "r' < R" "?t ! r' \<le> enat k" "enat k < ?t ! (r' + 1)"
      by (simp_all add: owns_def)
    have len: "length ?t = R + 1" by (rule length_boundary_table [OF assms(2)])
    have srt: "sorted ?t" by (rule sorted_boundary_table [OF assms(1)])
    show "r' = r"
      by (rule interval_unique [OF srt _ _ r'(2,3) r(2,3)]) (simp_all add: len r r')
  qed
qed


lemma mset_local_sort: "mset (local_sort ps) = mset ps"
  by (simp add: local_sort_def)

lemma mset_concat_local_sort: "mset (concat (map local_sort rbodies)) = mset (concat rbodies)"
  by (induction rbodies) (simp_all add: mset_local_sort)

lemma sorted_samples:
  "sorted (sort (concat (map (sample_keys nsample) (map local_sort rbodies))))"
  by simp

lemma mpi_sort_length: "length (mpi_sort nsample rbodies) = length rbodies"
  by (simp add: mpi_sort_def all_to_all_def Let_def)

lemma mpi_sort_nth:
  assumes "r < length rbodies"
  shows "mset (mpi_sort nsample rbodies ! r) =
           filter_mset (\<lambda>p. owns (mpi_sort_boundary nsample rbodies) r (fst p))
             (mset (concat rbodies))"
proof -
  let ?b = "mpi_sort_boundary nsample rbodies"
  let ?R = "length rbodies"
  define buckets where
    "buckets = map (\<lambda>ps. map (\<lambda>r. bucket ?b r ps) [0..<?R]) (map local_sort rbodies)"
  have len: "length buckets = ?R" by (simp add: buckets_def)
  have out: "mpi_sort nsample rbodies = map local_sort (all_to_all buckets)"
    by (simp only: mpi_sort_def Let_def buckets_def)
  have "all_to_all buckets ! r = concat (map (\<lambda>from_rank. from_rank ! r) buckets)"
    using assms len by (simp add: all_to_all_def)
  moreover have "map (\<lambda>from_rank. from_rank ! r) buckets =
      map (bucket ?b r) (map local_sort rbodies)"
    using assms by (simp add: buckets_def)
  moreover have "concat (map (bucket ?b r) (map local_sort rbodies)) =
      filter (\<lambda>p. owns ?b r (fst p)) (concat (map local_sort rbodies))"
    by (simp add: filter_concat bucket_def [abs_def] comp_def)
  ultimately have "all_to_all buckets ! r =
      filter (\<lambda>p. owns ?b r (fst p)) (concat (map local_sort rbodies))"
    by (simp only:)
  moreover have "r < length (all_to_all buckets)"
    using assms len by (simp add: all_to_all_def)
  ultimately have "mpi_sort nsample rbodies ! r =
      local_sort (filter (\<lambda>p. owns ?b r (fst p)) (concat (map local_sort rbodies)))"
    by (simp only: out nth_map)
  then show ?thesis
    by (simp add: mset_local_sort mset_concat_local_sort)
qed

lemma sum_list_no_owner:
  assumes "\<And>r. r < R \<Longrightarrow> \<not> P r"
  shows "(\<Sum>r\<leftarrow>[0..<R]. if P r then {#x#} else {#}) = {#}"
  using assms by (induction R) simp_all

lemma sum_list_single:
  assumes "\<exists>!r. r < R \<and> P r"
  shows "(\<Sum>r\<leftarrow>[0..<R]. if P r then {#x#} else {#}) = {#x#}"
  using assms
proof (induction R)
  case 0
  then show ?case by auto
next
  case (Suc R)
  show ?case
  proof (cases "P R")
    case True
    have "\<not> P r" if "r < R" for r
    proof
      assume "P r"
      with Suc.prems True that have "r = R" by (metis less_Suc_eq)
      with that show False by simp
    qed
    then have "(\<Sum>r\<leftarrow>[0..<R]. if P r then {#x#} else {#}) = {#}"
      by (rule sum_list_no_owner)
    with True show ?thesis by simp
  next
    case False
    with Suc.prems have "\<exists>!r. r < R \<and> P r"
      by (metis less_Suc_eq)
    with Suc.IH False show ?thesis by simp
  qed
qed

lemma partition_by_owner:
  assumes "\<And>x. x \<in># M \<Longrightarrow> \<exists>!r. r < R \<and> P r x"
  shows "(\<Sum>r\<leftarrow>[0..<R]. filter_mset (P r) M) = M"
  using assms
proof (induction M)
  case empty
  then show ?case by (simp add: sum_list_0)
next
  case (add x M)
  have "(\<Sum>r\<leftarrow>[0..<R]. filter_mset (P r) (add_mset x M)) =
        (\<Sum>r\<leftarrow>[0..<R]. (if P r x then {#x#} else {#}) + filter_mset (P r) M)"
    by (rule arg_cong [where f = sum_list], rule map_cong [OF refl]) simp
  also have "\<dots> = (\<Sum>r\<leftarrow>[0..<R]. if P r x then {#x#} else {#}) +
                   (\<Sum>r\<leftarrow>[0..<R]. filter_mset (P r) M)"
    by (simp add: sum_list_addf)
  also have "\<dots> = add_mset x M"
    using add.IH add.prems sum_list_single [of R "\<lambda>r. P r x" x] by simp
  finally show ?case .
qed

lemma mpi_sort_owner:
  assumes "0 < length rbodies"
  shows "\<exists>!r. r < length rbodies \<and> owns (mpi_sort_boundary nsample rbodies) r k"
  using owner_exists_unique [OF sorted_samples assms]
  by (simp add: mpi_sort_boundary_def Let_def)

lemma map_by_nth: "map f xs = map (\<lambda>r. f (xs ! r)) [0..<length xs]"
proof -
  have "map f xs = map f (map (\<lambda>r. xs ! r) [0..<length xs])"
    by (simp only: map_nth)
  also have "\<dots> = map (\<lambda>r. f (xs ! r)) [0..<length xs]"
    by (simp only: map_map comp_def)
  finally show ?thesis .
qed

lemma mpi_sort_mset:
  "mset (concat (mpi_sort nsample rbodies)) = mset (concat rbodies)"
proof (cases "rbodies = []")
  case True
  then show ?thesis by (simp add: mpi_sort_def all_to_all_def Let_def)
next
  case False
  let ?R = "length rbodies"
  let ?b = "mpi_sort_boundary nsample rbodies"
  let ?out = "mpi_sort nsample rbodies"
  have "map mset ?out = map (\<lambda>r. mset (?out ! r)) [0..<?R]"
    using map_by_nth [of mset ?out] by (simp only: mpi_sort_length)
  also have "\<dots> = map (\<lambda>r. filter_mset (\<lambda>p. owns ?b r (fst p)) (mset (concat rbodies))) [0..<?R]"
    by (rule map_cong [OF refl]) (simp add: mpi_sort_nth)
  finally have "mset (concat ?out) =
      (\<Sum>r\<leftarrow>[0..<?R]. filter_mset (\<lambda>p. owns ?b r (fst p)) (mset (concat rbodies)))"
    by (simp only: mset_concat)
  also have "\<dots> = mset (concat rbodies)"
  proof (rule partition_by_owner)
    fix x :: pair
    show "\<exists>!r. r < ?R \<and> owns ?b r (fst x)"
      using False by (intro mpi_sort_owner) simp
  qed
  finally show ?thesis .
qed


text \<open>
  C1. For every initial distribution of the particles over the ranks, after \<^verbatim>\<open>mpi_sort\<close>
  there are as many ranks as before, the pairs held by all ranks together are the same
  multiset as before (so their number is unchanged: none is created, duplicated or
  lost), and, the identifiers of the particles being pairwise different, they still are
  afterwards and each identifier is found on exactly one rank.
\<close>

theorem C1_conservation:
  "length (mpi_sort nsample rbodies) = length rbodies
   \<and> mset (concat (mpi_sort nsample rbodies)) = mset (concat rbodies)
   \<and> length (concat (mpi_sort nsample rbodies)) = length (concat rbodies)
   \<and> (distinct (map (\<lambda>p. ident (snd p)) (concat rbodies)) \<longrightarrow>
        distinct (map (\<lambda>p. ident (snd p)) (concat (mpi_sort nsample rbodies)))
        \<and> (\<forall>p \<in> set (concat rbodies).
              \<exists>!r. r < length rbodies \<and>
                    ident (snd p) \<in> (\<lambda>q. ident (snd q)) ` set (mpi_sort nsample rbodies ! r)))"
proof -
  let ?out = "mpi_sort nsample rbodies"
  let ?b = "mpi_sort_boundary nsample rbodies"
  let ?id = "\<lambda>p :: pair. ident (snd p)"
  have m: "mset (concat ?out) = mset (concat rbodies)" by (rule mpi_sort_mset)
  then have l: "length (concat ?out) = length (concat rbodies)" by (rule mset_eq_length)
  have s: "set (concat ?out) = set (concat rbodies)" using m by (rule mset_eq_setD)
  have ids: "distinct (map ?id (concat ?out)) \<and>
        (\<forall>p \<in> set (concat rbodies).
            \<exists>!r. r < length rbodies \<and> ?id p \<in> ?id ` set (?out ! r))"
    if dm: "distinct (map ?id (concat rbodies))"
  proof
    from dm have inj: "inj_on ?id (set (concat rbodies))" and d: "distinct (concat rbodies)"
      by (simp_all add: distinct_map)
    have "distinct (concat ?out)" using mset_eq_imp_distinct_iff [OF m] d by simp
    then show "distinct (map ?id (concat ?out))"
      using inj s by (simp add: distinct_map)
    show "\<forall>p \<in> set (concat rbodies).
            \<exists>!r. r < length rbodies \<and> ?id p \<in> ?id ` set (?out ! r)"
    proof
      fix p assume p: "p \<in> set (concat rbodies)"
      then have "rbodies \<noteq> []" by auto
      then obtain r where r: "r < length rbodies" "owns ?b r (fst p)"
        and u: "\<And>r'. r' < length rbodies \<Longrightarrow> owns ?b r' (fst p) \<Longrightarrow> r' = r"
        using mpi_sort_owner [of rbodies nsample "fst p"] by auto
      have mem: "q \<in> set (?out ! r') \<longleftrightarrow> q \<in> set (concat rbodies) \<and> owns ?b r' (fst q)"
        if "r' < length rbodies" for r' q
      proof -
        have "set_mset (mset (?out ! r')) =
            set_mset (filter_mset (\<lambda>p. owns ?b r' (fst p)) (mset (concat rbodies)))"
          by (simp only: mpi_sort_nth [OF that])
        then have "set (?out ! r') = {q \<in> set (concat rbodies). owns ?b r' (fst q)}"
          by (simp only: set_mset_mset set_mset_filter)
        then show ?thesis by simp
      qed
      show "\<exists>!r. r < length rbodies \<and> ?id p \<in> ?id ` set (?out ! r)"
      proof (rule ex1I [of _ r])
        show "r < length rbodies \<and> ?id p \<in> ?id ` set (?out ! r)"
          using r p mem [of r p] by auto
      next
        fix r' assume a: "r' < length rbodies \<and> ?id p \<in> ?id ` set (?out ! r')"
        then obtain q where q: "q \<in> set (?out ! r')" "?id q = ?id p" by auto
        then have q': "q \<in> set (concat rbodies)" "owns ?b r' (fst q)"
          using a mem [of r' q] by simp_all
        have "q = p" using inj_onD [OF inj q(2) q'(1) p] .
        then show "r' = r" using a u [of r'] q'(2) by simp
      qed
    qed
  qed
  from m l ids show ?thesis by (simp add: mpi_sort_length)
qed

theorem C1_conservation_witness:
  "distinct (map (\<lambda>p. ident (snd p))
      (concat [[particle 5 0, particle 1 1, particle 7 2], [particle 3 3, particle 9 5], [],
               [particle 4 4]]))
   \<and> mset (concat (mpi_sort 2
        [[particle 5 0, particle 1 1, particle 7 2], [particle 3 3, particle 9 5], [],
         [particle 4 4]]))
       = mset (concat
        [[particle 5 0, particle 1 1, particle 7 2], [particle 3 3, particle 9 5], [],
         [particle 4 4]])
   \<and> length (concat (mpi_sort 2
        [[particle 5 0, particle 1 1, particle 7 2], [particle 3 3, particle 9 5], [],
         [particle 4 4]])) = 6
   \<and> distinct (map (\<lambda>p. ident (snd p))
         (concat (mpi_sort 2
           [[particle 5 0, particle 1 1, particle 7 2], [particle 3 3, particle 9 5], [],
            [particle 4 4]])))"
proof -
  let ?X = "[[particle 5 0, particle 1 1, particle 7 2], [particle 3 3, particle 9 5], [],
             [particle 4 4]]"
  have d: "distinct (map (\<lambda>p. ident (snd p)) (concat ?X))"
    by (simp add: particle_def)
  show ?thesis
    using C1_conservation [of 2 ?X] d by simp
qed

lemma mpi_sort_example:
  "mpi_sort 2 [[particle 5 0, particle 1 1, particle 7 2], [particle 3 3, particle 9 5], [],
               [particle 4 4]]
   = [[particle 1 1], [particle 3 3], [particle 4 4],
      [particle 5 0, particle 7 2, particle 9 5]]"
  by code_simp

end
